theory Spec2Isabelle
  imports Main
begin

section \<open>Bounded two-dimensional random walk\<close>

text \<open>
  A shallow embedding of \<^verbatim>\<open>entorno.py\<close>, \<^verbatim>\<open>random_walk.py\<close> and the efficiency
  computation of \<^verbatim>\<open>visualizador.py\<close>. Python integers are \<open>int\<close>, tuples are pairs,
  the list \<^verbatim>\<open>camino\<close> is a list, the attributes of an object are the fields of a record.
  Mutation is explicit state passing, an exception is a value of \<open>py_error\<close>. Console
  output is not modelled.
\<close>

datatype py_error = ZeroDivisionError | OverflowError

subsection \<open>Entorno\<close>

record entorno =
  ancho :: int
  alto :: int
  pos_inicial :: "int \<times> int"

text \<open>
  \<^verbatim>\<open>Entorno.__init__(ancho, alto, pos_inicial=None)\<close>, with the dimensions given
  (the Python defaults are 100 and 100). Nothing is checked: any dimensions and any start
  are stored. \<^verbatim>\<open>//\<close> is floor division, as \<open>div\<close> on \<open>int\<close>.
\<close>

definition Entorno :: "int \<Rightarrow> int \<Rightarrow> (int \<times> int) option \<Rightarrow> entorno" where
  "Entorno a h p =
     \<lparr>ancho = a, alto = h,
      pos_inicial = (case p of None \<Rightarrow> (a div 2, h div 2) | Some q \<Rightarrow> q)\<rparr>"

text \<open>\<^verbatim>\<open>return 0 <= x < self.ancho and 0 <= y < self.alto\<close>\<close>

definition es_posicion_valida :: "entorno \<Rightarrow> int \<Rightarrow> int \<Rightarrow> bool" where
  "es_posicion_valida e x y = ((0 \<le> x \<and> x < ancho e) \<and> (0 \<le> y \<and> y < alto e))"

definition obtener_dimensiones :: "entorno \<Rightarrow> int \<times> int" where
  "obtener_dimensiones e = (ancho e, alto e)"

subsection \<open>RandomWalk\<close>

record random_walk =
  entorno :: entorno
  posicion_actual :: "int \<times> int"
  camino :: "(int \<times> int) list"
  pasos_realizados :: int
  intentos_bloqueados :: int

definition DIRECCIONES :: "(int \<times> int) list" where
  "DIRECCIONES = [(0, -1), (0, 1), (-1, 0), (1, 0)]"

text \<open>\<^verbatim>\<open>RandomWalk.__init__(entorno)\<close>\<close>

definition RandomWalk :: "entorno \<Rightarrow> random_walk" where
  "RandomWalk e =
     \<lparr>entorno = e, posicion_actual = pos_inicial e, camino = [pos_inicial e],
      pasos_realizados = 0, intentos_bloqueados = 0\<rparr>"

text \<open>
  The process-wide generator of \<^verbatim>\<open>random\<close> is a sequence of raw draws \<open>g\<close> and the
  number \<open>k\<close> of draws consumed so far. \<^verbatim>\<open>random.choice(seq)\<close> takes the element at a
  drawn index below \<^verbatim>\<open>len(seq)\<close> and consumes one draw.
\<close>

type_synonym azar = "nat \<Rightarrow> nat"

definition obtener_direccion_aleatoria :: "azar \<Rightarrow> nat \<Rightarrow> (int \<times> int) \<times> nat" where
  "obtener_direccion_aleatoria g k =
     (DIRECCIONES ! (g k mod length DIRECCIONES), Suc k)"

text \<open>
  The \<^verbatim>\<open>while intentos_locales < max_intentos\<close> loop of \<^verbatim>\<open>realizar_paso\<close>. The
  parameter \<^verbatim>\<open>mostrar_info\<close> only selects what is printed and is left out.
\<close>

function realizar_paso_bucle ::
  "azar \<Rightarrow> int \<Rightarrow> int \<Rightarrow> random_walk \<times> nat \<Rightarrow> bool \<times> random_walk \<times> nat" where
  "realizar_paso_bucle g max_intentos intentos_locales (rw, k) =
     (if intentos_locales < max_intentos then
        (let direccion = fst (obtener_direccion_aleatoria g k);
             k' = snd (obtener_direccion_aleatoria g k);
             nueva_x = fst (posicion_actual rw) + fst direccion;
             nueva_y = snd (posicion_actual rw) + snd direccion
         in if es_posicion_valida (entorno rw) nueva_x nueva_y then
              (True,
               rw\<lparr>posicion_actual := (nueva_x, nueva_y),
                  camino := camino rw @ [(nueva_x, nueva_y)],
                  pasos_realizados := pasos_realizados rw + 1\<rparr>,
               k')
            else
              realizar_paso_bucle g max_intentos (intentos_locales + 1)
                (rw\<lparr>intentos_bloqueados := intentos_bloqueados rw + 1\<rparr>, k'))
      else (False, rw, k))"
  by pat_completeness auto
termination
  by (relation "measure (\<lambda>(g, m, i, s). nat (m - i))") auto

definition realizar_paso :: "azar \<Rightarrow> int \<Rightarrow> random_walk \<times> nat \<Rightarrow> bool \<times> random_walk \<times> nat" where
  "realizar_paso g max_intentos s = realizar_paso_bucle g max_intentos 0 s"

declare realizar_paso_bucle.simps [simp del]

subsection \<open>Statistics\<close>

text \<open>
  The code computes three things in floating point, all from exact integers:
  \<^verbatim>\<open>n ** 0.5\<close>, the true division \<^verbatim>\<open>a / b\<close> of two integers, and the product
  \<^verbatim>\<open>x * 100\<close> of a float and an integer. What they return is decided by the Python
  interpreter and the platform, not by this repository, so the type \<open>'f\<close> of floats and
  the three operations are parameters of the model. The first two convert integers to
  floats and raise \<^verbatim>\<open>OverflowError\<close> when the integer or the quotient is out of range;
  \<open>division\<close> is only applied to a divisor that is not zero.
\<close>

record 'f flotantes =
  potencia_media :: "int \<Rightarrow> py_error + 'f"
  division :: "int \<Rightarrow> int \<Rightarrow> py_error + 'f"
  por_entero :: "'f \<Rightarrow> int \<Rightarrow> 'f"

text \<open>
  The dictionary returned by \<^verbatim>\<open>obtener_estadisticas\<close> has a fixed set of keys and is a
  record.
\<close>

record 'f estadisticas =
  est_pasos_realizados :: int
  est_intentos_bloqueados :: int
  est_posicion_inicial :: "int \<times> int"
  est_posicion_final :: "int \<times> int"
  est_camino :: "(int \<times> int) list"
  est_distancia_euclidiana :: 'f
  est_distancia_manhattan :: int

text \<open>\<^verbatim>\<open>((x1 - x0)**2 + (y1 - y0)**2)**0.5\<close>: the sum of squares is an exact integer.\<close>

definition calcular_distancia_euclidiana :: "'f flotantes \<Rightarrow> random_walk \<Rightarrow> py_error + 'f" where
  "calcular_distancia_euclidiana fl rw =
     (let (x0, y0) = pos_inicial (entorno rw); (x1, y1) = posicion_actual rw
      in potencia_media fl ((x1 - x0)\<^sup>2 + (y1 - y0)\<^sup>2))"

definition calcular_distancia_manhattan :: "random_walk \<Rightarrow> int" where
  "calcular_distancia_manhattan rw =
     (let (x0, y0) = pos_inicial (entorno rw); (x1, y1) = posicion_actual rw
      in \<bar>x1 - x0\<bar> + \<bar>y1 - y0\<bar>)"

text \<open>The dictionary literal of \<^verbatim>\<open>obtener_estadisticas\<close>, given the float distance.\<close>

definition diccionario :: "random_walk \<Rightarrow> 'f \<Rightarrow> 'f estadisticas" where
  "diccionario rw d =
     \<lparr>est_pasos_realizados = pasos_realizados rw,
      est_intentos_bloqueados = intentos_bloqueados rw,
      est_posicion_inicial = pos_inicial (entorno rw),
      est_posicion_final = posicion_actual rw,
      est_camino = camino rw,
      est_distancia_euclidiana = d,
      est_distancia_manhattan = calcular_distancia_manhattan rw\<rparr>"

text \<open>
  \<^verbatim>\<open>obtener_estadisticas\<close>: when the Euclidean distance raises, no dictionary is
  returned.
\<close>

definition obtener_estadisticas :: "'f flotantes \<Rightarrow> random_walk \<Rightarrow> py_error + 'f estadisticas" where
  "obtener_estadisticas fl rw =
     (case calcular_distancia_euclidiana fl rw of
        Inl err \<Rightarrow> Inl err
      | Inr d \<Rightarrow> Inr (diccionario rw d))"

subsection \<open>Simulation and reset\<close>

text \<open>
  The \<^verbatim>\<open>for paso in range(num_pasos)\<close> loop of \<^verbatim>\<open>simular\<close>. Each iteration calls
  \<^verbatim>\<open>realizar_paso\<close> with its default \<^verbatim>\<open>max_intentos=1000\<close> and leaves the loop when
  \<^verbatim>\<open>exito\<close> is false. The list \<open>llamadas\<close> records the value of \<^verbatim>\<open>exito\<close> of every
  call made, in order. With \<^verbatim>\<open>mostrar_progreso\<close> false the expression
  \<^verbatim>\<open>(paso + 1) % mostrar_cada\<close> is evaluated after a successful step and raises
  when \<^verbatim>\<open>mostrar_cada\<close> is zero; the state reached so far stays as it is.
\<close>

function simular_bucle ::
  "azar \<Rightarrow> int \<Rightarrow> bool \<Rightarrow> int \<Rightarrow> int \<Rightarrow> bool list \<times> random_walk \<times> nat
     \<Rightarrow> py_error option \<times> bool list \<times> random_walk \<times> nat" where
  "simular_bucle g num_pasos mostrar_progreso mostrar_cada paso (llamadas, rw, k) =
     (if paso < num_pasos then
        (let r = realizar_paso g 1000 (rw, k);
             exito = fst r;
             s' = snd r
         in if \<not> exito then (None, llamadas @ [exito], s')
            else if \<not> mostrar_progreso \<and> mostrar_cada = 0 then
              (Some ZeroDivisionError, llamadas @ [exito], s')
            else
              simular_bucle g num_pasos mostrar_progreso mostrar_cada (paso + 1)
                (llamadas @ [exito], s'))
      else (None, llamadas, rw, k))"
  by pat_completeness auto
termination
  by (relation "measure (\<lambda>(g, n, mp, mc, p, s). nat (n - p))") auto

declare simular_bucle.simps [simp del]

text \<open>
  \<^verbatim>\<open>simular(num_pasos, mostrar_progreso=True, mostrar_cada=10)\<close>: the result is the
  error raised in the loop or what \<^verbatim>\<open>return self.obtener_estadisticas()\<close> gives,
  together with the record of calls and the state left behind.
\<close>

definition simular ::
  "'f flotantes \<Rightarrow> azar \<Rightarrow> int \<Rightarrow> bool \<Rightarrow> int \<Rightarrow> random_walk \<times> nat
     \<Rightarrow> (py_error + 'f estadisticas) \<times> bool list \<times> random_walk \<times> nat" where
  "simular fl g num_pasos mostrar_progreso mostrar_cada s =
     (case simular_bucle g num_pasos mostrar_progreso mostrar_cada 0 ([], s) of
        (Some err, llamadas, rw, k) \<Rightarrow> (Inl err, llamadas, rw, k)
      | (None, llamadas, rw, k) \<Rightarrow> (obtener_estadisticas fl rw, llamadas, rw, k))"

definition reiniciar :: "random_walk \<Rightarrow> random_walk" where
  "reiniciar rw =
     rw\<lparr>posicion_actual := pos_inicial (entorno rw),
        camino := [pos_inicial (entorno rw)],
        pasos_realizados := 0,
        intentos_bloqueados := 0\<rparr>"

subsection \<open>Efficiency shown by the presentation layer\<close>


subsection \<open>Sequences of operations\<close>

text \<open>
  The public operations a caller can apply to an engine, and the state after a list of
  them. \<^verbatim>\<open>obtener_estadisticas\<close> hands out a copy of \<^verbatim>\<open>camino\<close> and changes nothing,
  whether it returns or raises. The state \<^verbatim>\<open>simular\<close> leaves is the state its loop
  leaves: the snapshot taken afterwards does not touch the engine.
\<close>

datatype operacion =
    OpPaso int
  | OpSimular int bool int
  | OpEstadisticas
  | OpReiniciar

fun aplicar :: "azar \<Rightarrow> operacion \<Rightarrow> random_walk \<times> nat \<Rightarrow> random_walk \<times> nat" where
  "aplicar g (OpPaso max_intentos) s = snd (realizar_paso g max_intentos s)"
| "aplicar g (OpSimular num_pasos mostrar_progreso mostrar_cada) s =
     snd (snd (simular_bucle g num_pasos mostrar_progreso mostrar_cada 0 ([], s)))"
| "aplicar g OpEstadisticas s = s"
| "aplicar g OpReiniciar (rw, k) = (reiniciar rw, k)"

fun ejecutar :: "azar \<Rightarrow> operacion list \<Rightarrow> random_walk \<times> nat \<Rightarrow> random_walk \<times> nat" where
  "ejecutar g [] s = s"
| "ejecutar g (op # ops) s = ejecutar g ops (aplicar g op s)"

text \<open>
  The path is not empty, has one element more than steps were taken, starts at the start of
  the region and ends at the current position.
\<close>

definition camino_consistente :: "random_walk \<Rightarrow> bool" where
  "camino_consistente rw =
     (int (length (camino rw)) = pasos_realizados rw + 1 \<and>
      camino rw \<noteq> [] \<and>
      hd (camino rw) = pos_inicial (entorno rw) \<and>
      last (camino rw) = posicion_actual rw)"

subsection \<open>Predicates used to state the properties\<close>

text \<open>A position, as a pair, passes the check of \<^verbatim>\<open>es_posicion_valida\<close>.\<close>

definition valido :: "entorno \<Rightarrow> int \<times> int \<Rightarrow> bool" where
  "valido e p = es_posicion_valida e (fst p) (snd p)"

text \<open>The position \<^verbatim>\<open>(nueva_x, nueva_y)\<close> that \<^verbatim>\<open>realizar_paso\<close> computes from the draw number \<open>i\<close>.\<close>

definition candidato :: "azar \<Rightarrow> random_walk \<Rightarrow> nat \<Rightarrow> int \<times> int" where
  "candidato g rw i =
     (let d = fst (obtener_direccion_aleatoria g i)
      in (fst (posicion_actual rw) + fst d, snd (posicion_actual rw) + snd d))"

text \<open>Each position of a path differs from the one before it by an element of \<^verbatim>\<open>DIRECCIONES\<close>.\<close>

fun continuo :: "(int \<times> int) list \<Rightarrow> bool" where
  "continuo (p # q # ps) =
     ((fst q - fst p, snd q - snd p) \<in> set DIRECCIONES \<and> continuo (q # ps))"
| "continuo ps = True"

text \<open>The effect of a call of \<^verbatim>\<open>realizar_paso\<close> that returns \<^verbatim>\<open>True\<close>.\<close>

definition un_paso :: "random_walk \<Rightarrow> random_walk \<Rightarrow> bool" where
  "un_paso rw rw' =
     (entorno rw' = entorno rw \<and>
      (fst (posicion_actual rw') - fst (posicion_actual rw),
       snd (posicion_actual rw') - snd (posicion_actual rw)) \<in> set DIRECCIONES \<and>
      valido (entorno rw) (posicion_actual rw') \<and>
      camino rw' = camino rw @ [posicion_actual rw'] \<and>
      pasos_realizados rw' = pasos_realizados rw + 1 \<and>
      intentos_bloqueados rw \<le> intentos_bloqueados rw')"

text \<open>What every engine over the region \<open>e\<close> satisfies.\<close>

definition invariante :: "entorno \<Rightarrow> random_walk \<Rightarrow> bool" where
  "invariante e rw =
     (entorno rw = e \<and> camino_consistente rw \<and>
      list_all (valido e) (tl (camino rw)) \<and>
      continuo (camino rw) \<and>
      0 \<le> intentos_bloqueados rw)"

text \<open>The state after one call of \<^verbatim>\<open>realizar_paso\<close> with its default budget, as \<^verbatim>\<open>simular\<close> makes it.\<close>

definition paso_1000 :: "azar \<Rightarrow> random_walk \<times> nat \<Rightarrow> random_walk \<times> nat" where
  "paso_1000 g s = snd (realizar_paso g 1000 s)"

text \<open>An engine on the region of one cell that has never moved.\<close>

definition quieto :: "random_walk \<Rightarrow> bool" where
  "quieto rw =
     (entorno rw = Entorno 1 1 (Some (0, 0)) \<and> posicion_actual rw = (0, 0) \<and>
      pasos_realizados rw = 0)"

section \<open>Properties\<close>

lemma candidato_bloq [simp]:
  "candidato g (rw\<lparr>intentos_bloqueados := b\<rparr>) i = candidato g rw i"
  by (simp add: candidato_def)

lemma bucle_exito:
  assumes "\<forall>i<j. \<not> valido (entorno rw) (candidato g rw (k + i))"
    and "valido (entorno rw) (candidato g rw (k + j))"
    and "il + int j < m"
  shows "realizar_paso_bucle g m il (rw, k) =
     (True,
      rw\<lparr>posicion_actual := candidato g rw (k + j),
         camino := camino rw @ [candidato g rw (k + j)],
         pasos_realizados := pasos_realizados rw + 1,
         intentos_bloqueados := intentos_bloqueados rw + int j\<rparr>,
      k + j + 1)"
  using assms
proof (induction j arbitrary: il rw k)
  case 0
  then show ?case
    by (simp add: realizar_paso_bucle.simps [of g m il rw k] valido_def candidato_def
        obtener_direccion_aleatoria_def Let_def)
next
  case (Suc j)
  have inv0: "\<not> valido (entorno rw) (candidato g rw k)"
    using Suc.prems(1) by (metis add.right_neutral zero_less_Suc)
  let ?rw = "rw\<lparr>intentos_bloqueados := intentos_bloqueados rw + 1\<rparr>"
  have a: "\<forall>i<j. \<not> valido (entorno ?rw) (candidato g ?rw (Suc k + i))"
    using Suc.prems(1) by auto
  have b: "valido (entorno ?rw) (candidato g ?rw (Suc k + j))"
    using Suc.prems(2) by simp
  have c: "(il + 1) + int j < m" using Suc.prems(3) by simp
  have step: "realizar_paso_bucle g m il (rw, k) = realizar_paso_bucle g m (il + 1) (?rw, Suc k)"
    using inv0 Suc.prems(3)
    by (simp add: realizar_paso_bucle.simps [of g m il rw k] valido_def candidato_def
        obtener_direccion_aleatoria_def Let_def)
  show ?case
    unfolding step Suc.IH [OF a b c] by (simp add: algebra_simps)
qed

lemma bucle_fracaso:
  assumes "\<forall>i<j. \<not> valido (entorno rw) (candidato g rw (k + i))"
    and "il + int j = m"
  shows "realizar_paso_bucle g m il (rw, k) =
     (False, rw\<lparr>intentos_bloqueados := intentos_bloqueados rw + int j\<rparr>, k + j)"
  using assms
proof (induction j arbitrary: il rw k)
  case 0
  then show ?case
    by (simp add: realizar_paso_bucle.simps)
next
  case (Suc j)
  have inv0: "\<not> valido (entorno rw) (candidato g rw k)"
    using Suc.prems(1) by (metis add.right_neutral zero_less_Suc)
  let ?rw = "rw\<lparr>intentos_bloqueados := intentos_bloqueados rw + 1\<rparr>"
  have a: "\<forall>i<j. \<not> valido (entorno ?rw) (candidato g ?rw (Suc k + i))"
    using Suc.prems(1) by auto
  have c: "(il + 1) + int j = m" using Suc.prems(2) by simp
  have step: "realizar_paso_bucle g m il (rw, k) = realizar_paso_bucle g m (il + 1) (?rw, Suc k)"
    using inv0 Suc.prems(2)
    by (simp add: realizar_paso_bucle.simps [of g m il rw k] valido_def candidato_def
        obtener_direccion_aleatoria_def Let_def)
  show ?case
    unfolding step Suc.IH [OF a c] by (simp add: algebra_simps)
qed

lemma bucle_agotado:
  "m \<le> il \<Longrightarrow> realizar_paso_bucle g m il s = (False, s)"
  by (cases s) (simp add: realizar_paso_bucle.simps)

lemma direccion_en_DIRECCIONES:
  "fst (obtener_direccion_aleatoria g k) \<in> set DIRECCIONES"
proof -
  have "length DIRECCIONES = 4" by (simp add: DIRECCIONES_def)
  then have "g k mod length DIRECCIONES < length DIRECCIONES" by simp
  then show ?thesis
    unfolding obtener_direccion_aleatoria_def fst_conv by (rule nth_mem)
qed

lemma realizar_paso_bucle_efecto:
  "realizar_paso_bucle g m il (rw, k) = (ok, rw', k') \<Longrightarrow>
     (ok \<longrightarrow> un_paso rw rw') \<and>
     (\<not> ok \<longrightarrow> rw' = rw\<lparr>intentos_bloqueados := intentos_bloqueados rw + max 0 (m - il)\<rparr>)"
proof (induction g m il "(rw, k)" arbitrary: rw k rule: realizar_paso_bucle.induct)
  case (1 g m il rw k)
  let ?d = "fst (obtener_direccion_aleatoria g k)"
  let ?p = "(fst (posicion_actual rw) + fst ?d, snd (posicion_actual rw) + snd ?d)"
  show ?case
  proof (cases "il < m")
    case False
    with "1.prems" show ?thesis
      by (simp add: realizar_paso_bucle.simps [of g m il rw k])
  next
    case True
    show ?thesis
    proof (cases "es_posicion_valida (entorno rw) (fst ?p) (snd ?p)")
      case valida: True
      have d: "?d \<in> set DIRECCIONES" by (rule direccion_en_DIRECCIONES)
      from "1.prems" True valida d show ?thesis
        by (auto simp add: realizar_paso_bucle.simps [of g m il rw k] Let_def un_paso_def
            valido_def)
    next
      case invalida: False
      let ?rw = "rw\<lparr>intentos_bloqueados := intentos_bloqueados rw + 1\<rparr>"
      let ?k = "snd (obtener_direccion_aleatoria g k)"
      have rec: "realizar_paso_bucle g m (il + 1) (?rw, ?k) = (ok, rw', k')"
        using "1.prems" True invalida
        by (simp add: realizar_paso_bucle.simps [of g m il rw k] Let_def)
      have ih: "(ok \<longrightarrow> un_paso ?rw rw') \<and>
          (\<not> ok \<longrightarrow> rw' = ?rw\<lparr>intentos_bloqueados :=
             intentos_bloqueados ?rw + max 0 (m - (il + 1))\<rparr>)"
        using "1.hyps" [OF True refl refl refl refl _ rec] invalida by simp
      from ih True show ?thesis
        by (auto simp add: un_paso_def max_def)
    qed
  qed
qed

lemma continuo_append:
  "continuo (ps @ [q]) =
     (continuo ps \<and>
      (ps = [] \<or> (fst q - fst (last ps), snd q - snd (last ps)) \<in> set DIRECCIONES))"
  by (induction ps rule: continuo.induct) auto

lemma continuo_nth:
  "continuo ps \<Longrightarrow> 0 < i \<Longrightarrow> i < length ps \<Longrightarrow>
     (fst (ps ! i) - fst (ps ! (i - 1)), snd (ps ! i) - snd (ps ! (i - 1))) \<in> set DIRECCIONES"
proof (induction ps arbitrary: i rule: continuo.induct)
  case (1 p q ps)
  show ?case
  proof (cases i)
    case 0
    with "1.prems" show ?thesis by simp
  next
    case (Suc j)
    show ?thesis
    proof (cases j)
      case 0
      with Suc "1.prems" show ?thesis by simp
    next
      case (Suc j')
      with \<open>i = Suc j\<close> "1.prems" "1.IH" [of j] show ?thesis by simp
    qed
  qed
qed simp_all

lemma invariante_inicial: "invariante e (RandomWalk e)"
  by (simp add: invariante_def RandomWalk_def camino_consistente_def)

lemma invariante_un_paso:
  assumes "invariante e rw" and "un_paso rw rw'"
  shows "invariante e rw'"
proof -
  from assms have ne: "camino rw \<noteq> []" and la: "last (camino rw) = posicion_actual rw"
    by (simp_all add: invariante_def camino_consistente_def)
  from ne have tl: "tl (camino rw @ [posicion_actual rw']) = tl (camino rw) @ [posicion_actual rw']"
    by simp
  from ne have hd: "hd (camino rw @ [posicion_actual rw']) = hd (camino rw)"
    by simp
  from assms show ?thesis
    unfolding invariante_def un_paso_def camino_consistente_def
    by (simp add: tl hd continuo_append la)
qed

lemma invariante_bloqueos:
  "invariante e rw \<Longrightarrow> 0 \<le> n \<Longrightarrow>
     invariante e (rw\<lparr>intentos_bloqueados := intentos_bloqueados rw + n\<rparr>)"
  by (simp add: invariante_def camino_consistente_def)

lemma invariante_realizar_paso:
  assumes "invariante e (fst s)"
  shows "invariante e (fst (snd (realizar_paso g m s)))"
proof -
  obtain rw k where s: "s = (rw, k)" by (cases s)
  obtain ok rw' k' where r: "realizar_paso_bucle g m 0 (rw, k) = (ok, rw', k')"
    by (cases "realizar_paso_bucle g m 0 (rw, k)")
  from realizar_paso_bucle_efecto [OF r] assms s
  have "invariante e rw'"
    by (cases ok) (auto intro: invariante_un_paso invariante_bloqueos)
  with r s show ?thesis by (simp add: realizar_paso_def)
qed

lemma invariante_reiniciar: "invariante e rw \<Longrightarrow> invariante e (reiniciar rw)"
  by (simp add: invariante_def reiniciar_def camino_consistente_def)

lemma simular_bucle_traza:
  "simular_bucle g n mp mc p (ll, rw, k) = (err, ll', s') \<Longrightarrow>
     \<exists>nu. ll' = ll @ nu \<and>
       s' = (paso_1000 g ^^ length nu) (rw, k) \<and>
       (\<forall>i<length nu. nu ! i = fst (realizar_paso g 1000 ((paso_1000 g ^^ i) (rw, k)))) \<and>
       int (length nu) \<le> max 0 (n - p) \<and>
       (\<forall>i<length nu. \<not> nu ! i \<longrightarrow> Suc i = length nu) \<and>
       (err = None \<longrightarrow> (\<forall>i<length nu. nu ! i) \<longrightarrow> int (length nu) = max 0 (n - p)) \<and>
       (err \<noteq> None \<longrightarrow> \<not> mp \<and> mc = 0)"
proof (induction g n mp mc p "(ll, rw, k)" arbitrary: ll rw k rule: simular_bucle.induct)
  case (1 g n mp mc p ll rw k)
  let ?r = "realizar_paso g 1000 (rw, k)"
  show ?case
  proof (cases "p < n")
    case False
    with "1.prems" have "ll' = ll" "s' = (rw, k)" "err = None"
      by (simp_all add: simular_bucle.simps [of g n mp mc p ll rw k])
    with False show ?thesis by simp
  next
    case True
    show ?thesis
    proof (cases "fst ?r")
      case fallo: False
      with "1.prems" True have "ll' = ll @ [False]" "s' = snd ?r" "err = None"
        by (simp_all add: simular_bucle.simps [of g n mp mc p ll rw k] Let_def)
      have no_todas: "\<not> (\<forall>i<length [False]. [False] ! i)"
        by (simp add: exI [of _ 0])
      have "ll' = ll @ [False] \<and>
          s' = (paso_1000 g ^^ length [False]) (rw, k) \<and>
          (\<forall>i<length [False]. [False] ! i =
             fst (realizar_paso g 1000 ((paso_1000 g ^^ i) (rw, k)))) \<and>
          int (length [False]) \<le> max 0 (n - p) \<and>
          (\<forall>i<length [False]. \<not> [False] ! i \<longrightarrow> Suc i = length [False]) \<and>
          (err = None \<longrightarrow> (\<forall>i<length [False]. [False] ! i) \<longrightarrow>
             int (length [False]) = max 0 (n - p)) \<and>
          (err \<noteq> None \<longrightarrow> \<not> mp \<and> mc = 0)"
        using \<open>ll' = ll @ [False]\<close> \<open>s' = snd ?r\<close> \<open>err = None\<close> True fallo
        by (auto simp add: paso_1000_def)
      then show ?thesis by (rule exI)
    next
      case exito: True
      show ?thesis
      proof (cases "\<not> mp \<and> mc = 0")
        case True
        have "simular_bucle g n mp mc p (ll, rw, k) =
            (Some ZeroDivisionError, ll @ [True], snd ?r)"
          using \<open>p < n\<close> exito True by (subst simular_bucle.simps) (simp add: Let_def)
        with "1.prems" have "ll' = ll @ [True]" "s' = snd ?r" "err = Some ZeroDivisionError"
          by simp_all
        with True \<open>p < n\<close> exito show ?thesis
          by (intro exI [of _ "[True]"]) (simp add: paso_1000_def)
      next
        case False
        obtain rw1 k1 where s1: "snd ?r = (rw1, k1)" by (cases "snd ?r")
        have rec: "simular_bucle g n mp mc (p + 1) (ll @ [fst ?r], rw1, k1) = (err, ll', s')"
          using "1.prems" \<open>p < n\<close> exito False s1
          by (simp add: simular_bucle.simps [of g n mp mc p ll rw k] Let_def)
        have ex': "\<not> \<not> fst ?r" using exito by simp
        have nz: "\<not> (\<not> mp \<and> mc = 0)" using False .
        have fr: "fst ?r = True" using exito by simp
        note ih = "1.hyps" [OF \<open>p < n\<close> refl refl s1 [symmetric] ex' nz rec, unfolded fr]
        from ih obtain nu where nu: "ll' = (ll @ [True]) @ nu"
          "s' = (paso_1000 g ^^ length nu) (rw1, k1)"
          "\<forall>i<length nu. nu ! i = fst (realizar_paso g 1000 ((paso_1000 g ^^ i) (rw1, k1)))"
          "int (length nu) \<le> max 0 (n - (p + 1))"
          "\<forall>i<length nu. \<not> nu ! i \<longrightarrow> Suc i = length nu"
          "err = None \<longrightarrow> (\<forall>i<length nu. nu ! i) \<longrightarrow> int (length nu) = max 0 (n - (p + 1))"
          "err \<noteq> None \<longrightarrow> \<not> mp \<and> mc = 0"
          by blast
        have p1: "paso_1000 g (rw, k) = (rw1, k1)" using s1 by (simp add: paso_1000_def)
        have a: "ll' = ll @ (True # nu)" using nu(1) by simp
        have b: "s' = (paso_1000 g ^^ length (True # nu)) (rw, k)"
          using nu(2) p1 by (simp add: funpow_swap1)
        have c: "\<forall>i<length (True # nu). (True # nu) ! i =
            fst (realizar_paso g 1000 ((paso_1000 g ^^ i) (rw, k)))"
        proof (intro allI impI)
          fix i assume "i < length (True # nu)"
          then show "(True # nu) ! i = fst (realizar_paso g 1000 ((paso_1000 g ^^ i) (rw, k)))"
            using nu(3) p1 exito by (cases i) (simp_all add: funpow_swap1)
        qed
        have d: "int (length (True # nu)) \<le> max 0 (n - p)"
          using nu(4) \<open>p < n\<close> by simp
        have e: "\<forall>i<length (True # nu). \<not> (True # nu) ! i \<longrightarrow> Suc i = length (True # nu)"
        proof (intro allI impI)
          fix i assume "i < length (True # nu)" "\<not> (True # nu) ! i"
          then show "Suc i = length (True # nu)"
            using nu(5) by (cases i) simp_all
        qed
        have f: "err = None \<longrightarrow> (\<forall>i<length (True # nu). (True # nu) ! i) \<longrightarrow>
            int (length (True # nu)) = max 0 (n - p)"
        proof (intro impI)
          assume "err = None" and all: "\<forall>i<length (True # nu). (True # nu) ! i"
          have "\<forall>i<length nu. nu ! i"
          proof (intro allI impI)
            fix i assume "i < length nu"
            then have "Suc i < length (True # nu)" by simp
            with all have "(True # nu) ! Suc i" by blast
            then show "nu ! i" by simp
          qed
          with nu(6) \<open>err = None\<close> have "int (length nu) = max 0 (n - (p + 1))" by simp
          with \<open>p < n\<close> show "int (length (True # nu)) = max 0 (n - p)" by simp
        qed
        from a b c d e f nu(7) show ?thesis by blast
      qed
    qed
  qed
qed

lemma paso_1000_preserva:
  assumes paso: "\<And>m s. P (fst s) \<Longrightarrow> P (fst (snd (realizar_paso g m s)))"
    and "P (fst s)"
  shows "P (fst ((paso_1000 g ^^ n) s))"
  using assms(2)
proof (induction n)
  case 0
  then show ?case by simp
next
  case (Suc n)
  then show ?case by (simp add: paso_1000_def paso)
qed

lemma simular_estado:
  "\<exists>n. snd (snd (simular_bucle g num_pasos mp mc 0 ([], s))) = (paso_1000 g ^^ n) s"
proof -
  obtain rw k where s: "s = (rw, k)" by (cases s)
  obtain err ll' s' where r: "simular_bucle g num_pasos mp mc 0 ([], rw, k) = (err, ll', s')"
    by (cases "simular_bucle g num_pasos mp mc 0 ([], rw, k)")
  from simular_bucle_traza [OF r] have "\<exists>n. s' = (paso_1000 g ^^ n) (rw, k)"
    by (elim exE conjE) (rule exI)
  with r s show ?thesis by simp
qed

text \<open>
The state that \<^verbatim>\<open>simular\<close> leaves is the one the operation sequence continues from.
\<close>

lemma simular_estado_final:
  "snd (snd (simular fl g num_pasos mp mc s)) = aplicar g (OpSimular num_pasos mp mc) s"
proof -
  obtain err ll rw k where r: "simular_bucle g num_pasos mp mc 0 ([], s) = (err, ll, rw, k)"
    by (cases "simular_bucle g num_pasos mp mc 0 ([], s)")
  then show ?thesis
    by (cases err) (simp_all add: simular_def)
qed

lemma aplicar_preserva:
  assumes paso: "\<And>m s. P (fst s) \<Longrightarrow> P (fst (snd (realizar_paso g m s)))"
    and reinicio: "\<And>rw. P rw \<Longrightarrow> P (reiniciar rw)"
    and "P (fst s)"
  shows "P (fst (aplicar g op s))"
proof (cases op)
  case (OpPaso m)
  with assms(3) show ?thesis by (simp add: paso)
next
  case (OpSimular n mp mc)
  obtain j where "snd (snd (simular_bucle g n mp mc 0 ([], s))) = (paso_1000 g ^^ j) s"
    using simular_estado by blast
  with OpSimular show ?thesis
    using paso_1000_preserva [where P = P and g = g and s = s and n = j, OF paso assms(3)] by simp
next
  case OpEstadisticas
  with assms(3) show ?thesis by simp
next
  case OpReiniciar
  with assms(3) show ?thesis by (cases s) (simp add: reinicio)
qed

lemma ejecutar_preserva:
  assumes paso: "\<And>m s. P (fst s) \<Longrightarrow> P (fst (snd (realizar_paso g m s)))"
    and reinicio: "\<And>rw. P rw \<Longrightarrow> P (reiniciar rw)"
    and "P (fst s)"
  shows "P (fst (ejecutar g ops s))"
  using assms(3)
proof (induction ops arbitrary: s)
  case Nil
  then show ?case by simp
next
  case (Cons op ops)
  have "P (fst (aplicar g op s))"
  proof (rule aplicar_preserva [where P = P])
    show "P (fst s)" by (rule Cons.prems)
  qed (simp_all add: paso reinicio)
  then show ?case by (simp add: Cons.IH)
qed

lemma invariante_ejecutar: "invariante e (fst (ejecutar g ops (RandomWalk e, k)))"
proof (rule ejecutar_preserva [where P = "invariante e"])
  show "invariante e (fst (RandomWalk e, k))" by (simp add: invariante_inicial)
qed (simp_all add: invariante_realizar_paso invariante_reiniciar)

text \<open>
Claim C1. Take any engine state, any sequence of draws and any budget. If the first \<open>j\<close> draws of a call of \<^verbatim>\<open>realizar_paso\<close> give invalid candidates and the next one, still within the budget, gives a valid candidate, then the call returns \<^verbatim>\<open>True\<close>, the position is that candidate, the candidate is appended to \<^verbatim>\<open>camino\<close>, \<^verbatim>\<open>pasos_realizados\<close> grows by exactly 1, and exactly \<open>j + 1\<close> draws are consumed: nothing is sampled after the valid one. Each of the \<open>j\<close> invalid candidates adds exactly 1 to \<^verbatim>\<open>intentos_bloqueados\<close> and changes nothing else.
\<close>

theorem realizar_paso_primer_valido:
  assumes "int j < max_intentos"
    and "\<forall>i<j. \<not> valido (entorno rw) (candidato g rw (k + i))"
    and "valido (entorno rw) (candidato g rw (k + j))"
  shows "realizar_paso g max_intentos (rw, k) =
     (True,
      rw\<lparr>posicion_actual := candidato g rw (k + j),
         camino := camino rw @ [candidato g rw (k + j)],
         pasos_realizados := pasos_realizados rw + 1,
         intentos_bloqueados := intentos_bloqueados rw + int j\<rparr>,
      k + j + 1)"
  unfolding realizar_paso_def
  using assms by (intro bucle_exito) simp_all

lemma evaluar_candidato:
  "candidato g rw i =
     (fst (posicion_actual rw) + fst (DIRECCIONES ! (g i mod 4)),
      snd (posicion_actual rw) + snd (DIRECCIONES ! (g i mod 4)))"
  by (simp add: candidato_def obtener_direccion_aleatoria_def DIRECCIONES_def Let_def)

text \<open>
The hypotheses hold on a region of width 2 and height 1 with start \<open>(0, 0)\<close>, when the draws are up, down, left, right and the budget is 5.
\<close>

theorem realizar_paso_primer_valido_witness:
  "\<not> valido (Entorno 2 1 (Some (0, 0))) (0, -1) \<and>
   \<not> valido (Entorno 2 1 (Some (0, 0))) (0, 1) \<and>
   \<not> valido (Entorno 2 1 (Some (0, 0))) (-1, 0) \<and>
   valido (Entorno 2 1 (Some (0, 0))) (1, 0) \<and>
   realizar_paso (\<lambda>i. i) 5 (RandomWalk (Entorno 2 1 (Some (0, 0))), 0) =
     (True,
      \<lparr>entorno = Entorno 2 1 (Some (0, 0)), posicion_actual = (1, 0),
       camino = [(0, 0), (1, 0)], pasos_realizados = 1, intentos_bloqueados = 3\<rparr>,
      4)"
proof -
  let ?e = "Entorno 2 1 (Some (0, 0))"
  let ?rw = "RandomWalk ?e"
  have c: "candidato (\<lambda>i. i) ?rw 0 = (0, -1)" "candidato (\<lambda>i. i) ?rw 1 = (0, 1)"
    "candidato (\<lambda>i. i) ?rw 2 = (-1, 0)" "candidato (\<lambda>i. i) ?rw 3 = (1, 0)"
    by (simp_all add: evaluar_candidato RandomWalk_def Entorno_def DIRECCIONES_def)
  have v: "\<not> valido ?e (0, -1)" "\<not> valido ?e (0, 1)" "\<not> valido ?e (-1, 0)" "valido ?e (1, 0)"
    by (simp_all add: valido_def es_posicion_valida_def Entorno_def)
  have h1: "int 3 < 5" by simp
  have h2: "\<forall>i<3. \<not> valido (entorno ?rw) (candidato (\<lambda>i. i) ?rw (0 + i))"
  proof (intro allI impI)
    fix i :: nat assume "i < 3"
    then have "i = 0 \<or> i = 1 \<or> i = 2" by auto
    then show "\<not> valido (entorno ?rw) (candidato (\<lambda>i. i) ?rw (0 + i))"
      using c v by (auto simp add: RandomWalk_def)
  qed
  have h3: "valido (entorno ?rw) (candidato (\<lambda>i. i) ?rw (0 + 3))"
    using c v by (simp add: RandomWalk_def)
  from realizar_paso_primer_valido [OF h1 h2 h3] c v show ?thesis
    by (simp add: RandomWalk_def Entorno_def)
qed

text \<open>
Claim C10. With \<^verbatim>\<open>max_intentos\<close> zero or negative, \<^verbatim>\<open>realizar_paso\<close> returns \<^verbatim>\<open>False\<close> at once: every field of the engine, \<^verbatim>\<open>intentos_bloqueados\<close> included, and the number of draws consumed are as before.
\<close>

theorem realizar_paso_sin_intentos:
  "max_intentos \<le> 0 \<Longrightarrow> realizar_paso g max_intentos s = (False, s)"
  unfolding realizar_paso_def by (rule bucle_agotado)

text \<open>
A call with budget \<open>-1\<close> on a fresh engine over a 10 by 10 region with the default start.
\<close>

theorem realizar_paso_sin_intentos_witness:
  "(-1::int) \<le> 0 \<and>
   realizar_paso (\<lambda>i. 3) (-1) (RandomWalk (Entorno 10 10 None), 7) =
     (False, RandomWalk (Entorno 10 10 None), 7)"
  using realizar_paso_sin_intentos [of "-1" "\<lambda>i. 3" "(RandomWalk (Entorno 10 10 None), 7)"]
  by simp

text \<open>
Claim C7. For every region and every pair of integers, \<^verbatim>\<open>es_posicion_valida\<close> is true exactly when \<open>0 \<le> x < ancho\<close> and \<open>0 \<le> y < alto\<close>. The method assigns nothing, so its model is a function of the region and the coordinates that returns only the truth value: the region after the call is the region before it.
\<close>

theorem es_posicion_valida_limites:
  "es_posicion_valida e x y = (0 \<le> x \<and> x < ancho e \<and> 0 \<le> y \<and> y < alto e)"
  by (simp add: es_posicion_valida_def)

text \<open>
Claim C6. After any sequence of operations on an engine built over a region \<open>e\<close>, \<^verbatim>\<open>reiniciar\<close> gives the state of a freshly built engine over \<open>e\<close>: position and path at the start, both counters zero. \<^verbatim>\<open>reiniciar\<close> has no failing branch.
\<close>

theorem reiniciar_como_nuevo:
  "reiniciar (fst (ejecutar g ops (RandomWalk e, k))) = RandomWalk e \<and>
   posicion_actual (reiniciar (fst (ejecutar g ops (RandomWalk e, k)))) = pos_inicial e \<and>
   camino (reiniciar (fst (ejecutar g ops (RandomWalk e, k)))) = [pos_inicial e] \<and>
   pasos_realizados (reiniciar (fst (ejecutar g ops (RandomWalk e, k)))) = 0 \<and>
   intentos_bloqueados (reiniciar (fst (ejecutar g ops (RandomWalk e, k)))) = 0"
proof -
  have "entorno (fst (ejecutar g ops (RandomWalk e, k))) = e"
    using invariante_ejecutar [of e g ops k] by (simp add: invariante_def)
  then show ?thesis
    by (simp add: reiniciar_def RandomWalk_def)
qed

text \<open>
The Manhattan distance of a snapshot is exact integer arithmetic: \<open>\<bar>x - x0\<bar> + \<bar>y - y0\<bar>\<close> between the start and the current position. The Euclidean distance is whatever the platform's \<^verbatim>\<open>** 0.5\<close> returns on the exact sum of squares; nothing more is said of it here.
\<close>

lemma distancia_manhattan_exacta:
  "obtener_estadisticas fl rw = Inr est \<Longrightarrow>
     est_distancia_manhattan est =
       \<bar>fst (posicion_actual rw) - fst (pos_inicial (entorno rw))\<bar> +
       \<bar>snd (posicion_actual rw) - snd (pos_inicial (entorno rw))\<bar>"
  by (auto simp add: obtener_estadisticas_def diccionario_def calcular_distancia_manhattan_def
      split_beta split: sum.splits)

lemma realizar_paso_fracaso:
  assumes "0 < m"
    and "\<forall>i<nat m. \<not> valido (entorno rw) (candidato g rw (k + i))"
  shows "realizar_paso g m (rw, k) =
     (False, rw\<lparr>intentos_bloqueados := intentos_bloqueados rw + m\<rparr>, k + nat m)"
proof -
  from assms(1) have "0 + int (nat m) = m" by simp
  from bucle_fracaso [OF assms(2) this] assms(1) show ?thesis
    by (simp add: realizar_paso_def)
qed

lemma candidato_1x1_invalido:
  assumes "entorno rw = Entorno 1 1 p" and "posicion_actual rw = (0, 0)"
  shows "\<not> valido (entorno rw) (candidato g rw i)"
proof -
  have "fst (obtener_direccion_aleatoria g i) \<in> set DIRECCIONES"
    by (rule direccion_en_DIRECCIONES)
  then show ?thesis
    using assms
    by (auto simp add: candidato_def valido_def es_posicion_valida_def Entorno_def
        DIRECCIONES_def Let_def)
qed

lemma quieto_realizar_paso:
  assumes "quieto (fst s)"
  shows "quieto (fst (snd (realizar_paso g m s)))"
proof -
  obtain rw k where s: "s = (rw, k)" by (cases s)
  from assms s have q: "entorno rw = Entorno 1 1 (Some (0, 0))" "posicion_actual rw = (0, 0)"
    by (simp_all add: quieto_def)
  show ?thesis
  proof (cases "0 < m")
    case True
    have "\<forall>i<nat m. \<not> valido (entorno rw) (candidato g rw (k + i))"
      using candidato_1x1_invalido [OF q] by simp
    from realizar_paso_fracaso [OF True this] assms s show ?thesis
      by (simp add: quieto_def)
  next
    case False
    then have "realizar_paso g m s = (False, s)"
      by (simp add: realizar_paso_def bucle_agotado)
    with assms show ?thesis by simp
  qed
qed

lemma quieto_ejecutar:
  "quieto (fst (ejecutar g ops (RandomWalk (Entorno 1 1 (Some (0, 0))), k)))"
proof (rule ejecutar_preserva [where P = quieto])
  show "quieto (fst (RandomWalk (Entorno 1 1 (Some (0, 0))), k))"
    by (simp add: quieto_def RandomWalk_def Entorno_def)
next
  fix rw assume "quieto rw"
  then show "quieto (reiniciar rw)"
    by (simp add: quieto_def reiniciar_def Entorno_def)
qed (rule quieto_realizar_paso)

text \<open>
Claim C2. For every engine state and every positive budget: if all \<^verbatim>\<open>max_intentos\<close> draws of a call give invalid candidates, the call returns \<^verbatim>\<open>False\<close>, position, path and \<^verbatim>\<open>pasos_realizados\<close> are as before, and \<^verbatim>\<open>intentos_bloqueados\<close> has grown by exactly \<^verbatim>\<open>max_intentos\<close>. In particular, on the region of width 1 and height 1 with start \<open>(0, 0)\<close>, after any sequence of operations \<^verbatim>\<open>pasos_realizados\<close> is 0 and a call with budget 50 returns \<^verbatim>\<open>False\<close>, changes only \<^verbatim>\<open>intentos_bloqueados\<close>, by exactly 50, and consumes 50 draws.
\<close>

theorem realizar_paso_agotado:
  "(0 < m \<and> (\<forall>i<nat m. \<not> valido (entorno rw) (candidato g rw (k + i))) \<longrightarrow>
      realizar_paso g m (rw, k) =
        (False, rw\<lparr>intentos_bloqueados := intentos_bloqueados rw + m\<rparr>, k + nat m)) \<and>
   (let s = ejecutar g' ops (RandomWalk (Entorno 1 1 (Some (0, 0))), k')
    in pasos_realizados (fst s) = 0 \<and>
       realizar_paso g' 50 s =
         (False, (fst s)\<lparr>intentos_bloqueados := intentos_bloqueados (fst s) + 50\<rparr>,
          snd s + 50))"
proof -
  let ?s = "ejecutar g' ops (RandomWalk (Entorno 1 1 (Some (0, 0))), k')"
  have q: "quieto (fst ?s)" by (rule quieto_ejecutar)
  then have e: "entorno (fst ?s) = Entorno 1 1 (Some (0, 0))"
    and p: "posicion_actual (fst ?s) = (0, 0)" and z: "pasos_realizados (fst ?s) = 0"
    by (simp_all add: quieto_def)
  have inv: "\<forall>i<nat 50. \<not> valido (entorno (fst ?s)) (candidato g' (fst ?s) (snd ?s + i))"
    using candidato_1x1_invalido [OF e p] by simp
  have "realizar_paso g' 50 (fst ?s, snd ?s) =
      (False, (fst ?s)\<lparr>intentos_bloqueados := intentos_bloqueados (fst ?s) + 50\<rparr>,
       snd ?s + nat 50)"
    by (rule realizar_paso_fracaso [OF _ inv]) simp
  then have b: "realizar_paso g' 50 ?s =
      (False, (fst ?s)\<lparr>intentos_bloqueados := intentos_bloqueados (fst ?s) + 50\<rparr>,
       snd ?s + 50)"
    by simp
  from z b show ?thesis
    by (simp add: Let_def realizar_paso_fracaso)
qed

text \<open>
Two rejected draws (up, down) from \<open>(1, 0)\<close> on a region of width 2 and height 1 with budget 2, and a call with budget 50 on the region of one cell after a failed step and a reset.
\<close>

theorem realizar_paso_agotado_witness:
  "\<not> valido (Entorno 2 1 (Some (1, 0))) (1, -1) \<and>
   \<not> valido (Entorno 2 1 (Some (1, 0))) (1, 1) \<and>
   realizar_paso (\<lambda>i. i) 2 (RandomWalk (Entorno 2 1 (Some (1, 0))), 0) =
     (False,
      \<lparr>entorno = Entorno 2 1 (Some (1, 0)), posicion_actual = (1, 0),
       camino = [(1, 0)], pasos_realizados = 0, intentos_bloqueados = 2\<rparr>,
      2) \<and>
   realizar_paso (\<lambda>i. i) 50
       (ejecutar (\<lambda>i. i) [OpPaso 2, OpReiniciar] (RandomWalk (Entorno 1 1 (Some (0, 0))), 0)) =
     (False,
      \<lparr>entorno = Entorno 1 1 (Some (0, 0)), posicion_actual = (0, 0),
       camino = [(0, 0)], pasos_realizados = 0, intentos_bloqueados = 50\<rparr>,
      52)"
proof -
  let ?e = "Entorno 2 1 (Some (1, 0))"
  let ?rw = "RandomWalk ?e"
  have c: "candidato (\<lambda>i. i) ?rw 0 = (1, -1)" "candidato (\<lambda>i. i) ?rw 1 = (1, 1)"
    by (simp_all add: evaluar_candidato RandomWalk_def Entorno_def DIRECCIONES_def)
  have v: "\<not> valido ?e (1, -1)" "\<not> valido ?e (1, 1)"
    by (simp_all add: valido_def es_posicion_valida_def Entorno_def)
  have h: "\<forall>i<nat 2. \<not> valido (entorno ?rw) (candidato (\<lambda>i. i) ?rw (0 + i))"
  proof (intro allI impI)
    fix i :: nat assume "i < nat 2"
    then have "i = 0 \<or> i = 1" by auto
    then show "\<not> valido (entorno ?rw) (candidato (\<lambda>i. i) ?rw (0 + i))"
      using c v by (auto simp add: RandomWalk_def)
  qed
  have s: "ejecutar (\<lambda>i. i) [OpPaso 2, OpReiniciar] (RandomWalk (Entorno 1 1 (Some (0, 0))), 0) =
      (RandomWalk (Entorno 1 1 (Some (0, 0))), 2)"
    by (simp add: realizar_paso_def realizar_paso_bucle.simps obtener_direccion_aleatoria_def
        DIRECCIONES_def es_posicion_valida_def RandomWalk_def Entorno_def reiniciar_def Let_def)
  from realizar_paso_agotado [of 2 ?rw "\<lambda>i. i" 0 "\<lambda>i. i" "[OpPaso 2, OpReiniciar]" 0] h v
  show ?thesis
    unfolding s by (simp add: Let_def RandomWalk_def Entorno_def)
qed

lemma evaluar_ejemplo:
  "ejecutar (\<lambda>i. i) [OpPaso 5, OpEstadisticas, OpSimular 1 True 10]
      (RandomWalk (Entorno 2 1 (Some (0, 0))), 0) =
   (\<lparr>entorno = Entorno 2 1 (Some (0, 0)), posicion_actual = (0, 0),
     camino = [(0, 0), (1, 0), (0, 0)], pasos_realizados = 2, intentos_bloqueados = 5\<rparr>,
    7)"
  by (simp add: realizar_paso_def realizar_paso_bucle.simps simular_bucle.simps
      obtener_direccion_aleatoria_def DIRECCIONES_def es_posicion_valida_def RandomWalk_def
      Entorno_def Let_def)

text \<open>
Claim C3 as stated fails: \<^verbatim>\<open>Entorno\<close> accepts any start, and with start \<open>(20, 20)\<close> on a 10 by 10 region the first element of the path is not a valid position.
\<close>

theorem camino_invariantes_counterexample:
  "\<not> (let e = Entorno 10 10 (Some (20, 20));
          rw = fst (ejecutar (\<lambda>i. i) [OpPaso 2] (RandomWalk e, 0))
      in int (length (camino rw)) = pasos_realizados rw + 1 \<and>
         hd (camino rw) = pos_inicial e \<and>
         last (camino rw) = posicion_actual rw \<and>
         list_all (valido e) (camino rw))"
  by (simp add: realizar_paso_def realizar_paso_bucle.simps obtener_direccion_aleatoria_def
      DIRECCIONES_def es_posicion_valida_def valido_def RandomWalk_def Entorno_def Let_def)

text \<open>
Claim C3, amended. For every engine reached from construction by steps, simulations, snapshots and resets, over any region the constructor accepts: the path has \<^verbatim>\<open>pasos_realizados + 1\<close> elements, its first element is the start, its last element is the current position, and every element after the first is a valid position. The first element is the start as supplied, so all elements are valid when the start is.
\<close>

theorem camino_invariantes:
  "let rw = fst (ejecutar g ops (RandomWalk e, k))
   in int (length (camino rw)) = pasos_realizados rw + 1 \<and>
      camino rw \<noteq> [] \<and>
      hd (camino rw) = pos_inicial e \<and>
      last (camino rw) = posicion_actual rw \<and>
      list_all (valido e) (tl (camino rw)) \<and>
      (valido e (pos_inicial e) \<longrightarrow> list_all (valido e) (camino rw))"
proof -
  let ?rw = "fst (ejecutar g ops (RandomWalk e, k))"
  have i: "invariante e ?rw" by (rule invariante_ejecutar)
  then have ne: "camino ?rw \<noteq> []" and h: "hd (camino ?rw) = pos_inicial e"
    and t: "list_all (valido e) (tl (camino ?rw))"
    by (auto simp add: invariante_def camino_consistente_def)
  have "list_all (valido e) (camino ?rw)" if "valido e (pos_inicial e)"
  proof -
    from ne obtain p ps where c: "camino ?rw = p # ps" by (cases "camino ?rw") auto
    with h t that show ?thesis by simp
  qed
  with i show ?thesis
    by (simp add: Let_def invariante_def camino_consistente_def)
qed

text \<open>
A region with a valid start, after a step, a snapshot and a simulation of one step.
\<close>

theorem camino_invariantes_witness:
  "valido (Entorno 2 1 (Some (0, 0))) (pos_inicial (Entorno 2 1 (Some (0, 0)))) \<and>
   camino (fst (ejecutar (\<lambda>i. i) [OpPaso 5, OpEstadisticas, OpSimular 1 True 10]
      (RandomWalk (Entorno 2 1 (Some (0, 0))), 0))) = [(0, 0), (1, 0), (0, 0)] \<and>
   list_all (valido (Entorno 2 1 (Some (0, 0))))
     (camino (fst (ejecutar (\<lambda>i. i) [OpPaso 5, OpEstadisticas, OpSimular 1 True 10]
        (RandomWalk (Entorno 2 1 (Some (0, 0))), 0))))"
proof -
  have v: "valido (Entorno 2 1 (Some (0, 0))) (pos_inicial (Entorno 2 1 (Some (0, 0))))"
    by (simp add: valido_def es_posicion_valida_def Entorno_def)
  from camino_invariantes [of "\<lambda>i. i" "[OpPaso 5, OpEstadisticas, OpSimular 1 True 10]"
      "Entorno 2 1 (Some (0, 0))" 0] v
  show ?thesis
    unfolding evaluar_ejemplo Let_def by simp
qed

text \<open>
Claim C4. For every engine reached from construction by any sequence of operations and every index \<open>i > 0\<close> into the path, element \<open>i\<close> minus element \<open>i - 1\<close> is one of the four displacements \<open>(0, -1)\<close>, \<open>(0, 1)\<close>, \<open>(-1, 0)\<close>, \<open>(1, 0)\<close>.
\<close>

theorem camino_continuo:
  "0 < i \<Longrightarrow> i < length (camino (fst (ejecutar g ops (RandomWalk e, k)))) \<Longrightarrow>
   (fst (camino (fst (ejecutar g ops (RandomWalk e, k))) ! i) -
      fst (camino (fst (ejecutar g ops (RandomWalk e, k))) ! (i - 1)),
    snd (camino (fst (ejecutar g ops (RandomWalk e, k))) ! i) -
      snd (camino (fst (ejecutar g ops (RandomWalk e, k))) ! (i - 1)))
     \<in> {(0, -1), (0, 1), (-1, 0), (1, 0)}"
proof -
  assume i: "0 < i" "i < length (camino (fst (ejecutar g ops (RandomWalk e, k))))"
  have "continuo (camino (fst (ejecutar g ops (RandomWalk e, k))))"
    using invariante_ejecutar [of e g ops k] by (simp add: invariante_def)
  from continuo_nth [OF this i] show ?thesis
    by (simp add: DIRECCIONES_def)
qed

text \<open>
Index 2 of the path \<open>[(0, 0), (1, 0), (0, 0)]\<close> reached on a region of width 2 and height 1.
\<close>

theorem camino_continuo_witness:
  "(0::nat) < 2 \<and>
   2 < length (camino (fst (ejecutar (\<lambda>i. i) [OpPaso 5, OpEstadisticas, OpSimular 1 True 10]
      (RandomWalk (Entorno 2 1 (Some (0, 0))), 0)))) \<and>
   camino (fst (ejecutar (\<lambda>i. i) [OpPaso 5, OpEstadisticas, OpSimular 1 True 10]
      (RandomWalk (Entorno 2 1 (Some (0, 0))), 0))) ! 1 = (1, 0) \<and>
   camino (fst (ejecutar (\<lambda>i. i) [OpPaso 5, OpEstadisticas, OpSimular 1 True 10]
      (RandomWalk (Entorno 2 1 (Some (0, 0))), 0))) ! 2 = (0, 0) \<and>
   (fst (camino (fst (ejecutar (\<lambda>i. i) [OpPaso 5, OpEstadisticas, OpSimular 1 True 10]
      (RandomWalk (Entorno 2 1 (Some (0, 0))), 0))) ! 2) -
    fst (camino (fst (ejecutar (\<lambda>i. i) [OpPaso 5, OpEstadisticas, OpSimular 1 True 10]
      (RandomWalk (Entorno 2 1 (Some (0, 0))), 0))) ! (2 - 1)),
    snd (camino (fst (ejecutar (\<lambda>i. i) [OpPaso 5, OpEstadisticas, OpSimular 1 True 10]
      (RandomWalk (Entorno 2 1 (Some (0, 0))), 0))) ! 2) -
    snd (camino (fst (ejecutar (\<lambda>i. i) [OpPaso 5, OpEstadisticas, OpSimular 1 True 10]
      (RandomWalk (Entorno 2 1 (Some (0, 0))), 0))) ! (2 - 1)))
     \<in> {(0, -1), (0, 1), (-1, 0), (1, 0)}"
proof -
  have h1: "(0::nat) < 2" by simp
  have h2: "2 < length (camino (fst (ejecutar (\<lambda>i. i)
      [OpPaso 5, OpEstadisticas, OpSimular 1 True 10]
      (RandomWalk (Entorno 2 1 (Some (0, 0))), 0))))"
    unfolding evaluar_ejemplo by simp
  from camino_continuo [OF h1 h2] h2 show ?thesis
    unfolding evaluar_ejemplo by simp
qed

lemma realizar_paso_pasos:
  "pasos_realizados (fst (snd (realizar_paso g m s))) =
     pasos_realizados (fst s) + (if fst (realizar_paso g m s) then 1 else 0)"
proof -
  obtain rw k where s: "s = (rw, k)" by (cases s)
  obtain ok rw' k' where r: "realizar_paso_bucle g m 0 (rw, k) = (ok, rw', k')"
    by (cases "realizar_paso_bucle g m 0 (rw, k)")
  from realizar_paso_bucle_efecto [OF r] have "pasos_realizados rw' =
      pasos_realizados rw + (if ok then 1 else 0)"
    by (cases ok) (auto simp add: un_paso_def)
  with r s show ?thesis by (simp add: realizar_paso_def)
qed

lemma paso_1000_pasos:
  "pasos_realizados (fst (paso_1000 g s)) =
     pasos_realizados (fst s) + (if fst (realizar_paso g 1000 s) then 1 else 0)"
  unfolding paso_1000_def by (rule realizar_paso_pasos)

lemma pasos_tras_llamadas:
  "pasos_realizados (fst ((paso_1000 g ^^ n) s)) =
     pasos_realizados (fst s) +
     int (length (filter id
       (map (\<lambda>i. fst (realizar_paso g 1000 ((paso_1000 g ^^ i) s))) [0..<n])))"
proof (induction n)
  case 0
  show ?case by simp
next
  case (Suc n)
  show ?case
    by (simp add: Suc.IH paso_1000_pasos)
qed

lemma lista_por_indices:
  "\<forall>i<length xs. xs ! i = f i \<Longrightarrow> xs = map f [0..<length xs]"
  by (rule nth_equalityI) simp_all

lemma simular_bucle_inicio:
  assumes "simular_bucle g n mp mc 0 ([], rw, k) = (err, ll, s')"
  shows "s' = (paso_1000 g ^^ length ll) (rw, k)"
    and "\<forall>i<length ll. ll ! i = fst (realizar_paso g 1000 ((paso_1000 g ^^ i) (rw, k)))"
    and "int (length ll) \<le> max 0 n"
    and "\<forall>i<length ll. \<not> ll ! i \<longrightarrow> Suc i = length ll"
    and "err = None \<longrightarrow> (\<forall>i<length ll. ll ! i) \<longrightarrow> int (length ll) = max 0 n"
    and "err \<noteq> None \<longrightarrow> \<not> mp \<and> mc = 0"
proof -
  from simular_bucle_traza [OF assms] obtain nu where nu: "ll = [] @ nu"
    and t: "s' = (paso_1000 g ^^ length nu) (rw, k)"
      "\<forall>i<length nu. nu ! i = fst (realizar_paso g 1000 ((paso_1000 g ^^ i) (rw, k)))"
      "int (length nu) \<le> max 0 (n - 0)"
      "\<forall>i<length nu. \<not> nu ! i \<longrightarrow> Suc i = length nu"
      "err = None \<longrightarrow> (\<forall>i<length nu. nu ! i) \<longrightarrow> int (length nu) = max 0 (n - 0)"
      "err \<noteq> None \<longrightarrow> \<not> mp \<and> mc = 0"
    by blast
  from nu have eq: "nu = ll" by simp
  from t(1) show "s' = (paso_1000 g ^^ length ll) (rw, k)" unfolding eq .
  from t(2) show "\<forall>i<length ll. ll ! i =
      fst (realizar_paso g 1000 ((paso_1000 g ^^ i) (rw, k)))" unfolding eq .
  from t(3) show "int (length ll) \<le> max 0 n" unfolding eq by simp
  from t(4) show "\<forall>i<length ll. \<not> ll ! i \<longrightarrow> Suc i = length ll" unfolding eq .
  from t(5) show "err = None \<longrightarrow> (\<forall>i<length ll. ll ! i) \<longrightarrow> int (length ll) = max 0 n"
    unfolding eq by simp
  from t(6) show "err \<noteq> None \<longrightarrow> \<not> mp \<and> mc = 0" .
qed

lemma simular_resultado:
  assumes "simular fl g n mp mc (rw, k) = (res, ll, s')"
  shows "\<exists>err. simular_bucle g n mp mc 0 ([], rw, k) = (err, ll, s') \<and>
      res = (case err of Some x \<Rightarrow> Inl x | None \<Rightarrow> obtener_estadisticas fl (fst s'))"
proof -
  obtain err l z where r: "simular_bucle g n mp mc 0 ([], rw, k) = (err, l, z)"
    by (cases "simular_bucle g n mp mc 0 ([], rw, k)")
  obtain rw' k' where z: "z = (rw', k')" by (cases z)
  show ?thesis
  proof (cases err)
    case None
    with assms r z show ?thesis by (auto simp add: simular_def)
  next
    case (Some x)
    with assms r z show ?thesis by (auto simp add: simular_def)
  qed
qed

text \<open>
What \<^verbatim>\<open>simular\<close> does on every input: it calls \<^verbatim>\<open>realizar_paso\<close> one after the other, each time with the budget 1000 and on the state the call before left, at most \<^verbatim>\<open>num_pasos\<close> times; a call that returns \<^verbatim>\<open>False\<close> is the last one; \<^verbatim>\<open>pasos_realizados\<close> grows by the number of calls that returned \<^verbatim>\<open>True\<close>. When \<^verbatim>\<open>mostrar_progreso\<close> is true or \<^verbatim>\<open>mostrar_cada\<close> is not zero, the result is what \<^verbatim>\<open>obtener_estadisticas\<close> gives on the state reached, and if no call failed exactly \<^verbatim>\<open>num_pasos\<close> calls were made (none when it is negative).
\<close>

lemma simular_llamadas:
  assumes "simular fl g num_pasos mostrar_progreso mostrar_cada s = (res, llamadas, s')"
  shows "int (length llamadas) \<le> max 0 num_pasos \<and>
    (\<forall>i<length llamadas.
       llamadas ! i = fst (realizar_paso g 1000 ((paso_1000 g ^^ i) s))) \<and>
    s' = (paso_1000 g ^^ length llamadas) s \<and>
    (\<forall>i<length llamadas. \<not> llamadas ! i \<longrightarrow> Suc i = length llamadas) \<and>
    pasos_realizados (fst s') =
      pasos_realizados (fst s) + int (length (filter id llamadas)) \<and>
    (mostrar_progreso \<or> mostrar_cada \<noteq> 0 \<longrightarrow>
       res = obtener_estadisticas fl (fst s') \<and>
       ((\<forall>i<length llamadas. llamadas ! i) \<longrightarrow> int (length llamadas) = max 0 num_pasos))"
proof -
  obtain rw k where s: "s = (rw, k)" by (cases s)
  from simular_resultado [OF assms [unfolded s]] obtain err where
    r: "simular_bucle g num_pasos mostrar_progreso mostrar_cada 0 ([], rw, k) =
        (err, llamadas, s')"
    and res: "res = (case err of Some x \<Rightarrow> Inl x
        | None \<Rightarrow> obtener_estadisticas fl (fst s'))"
    by blast
  note t = simular_bucle_inicio [OF r, folded s]
  have m: "map (\<lambda>i. fst (realizar_paso g 1000 ((paso_1000 g ^^ i) s))) [0..<length llamadas] =
      llamadas"
    by (rule lista_por_indices [OF t(2), symmetric])
  have p: "pasos_realizados (fst s') =
      pasos_realizados (fst s) + int (length (filter id llamadas))"
    using pasos_tras_llamadas [where g = g and n = "length llamadas" and s = s] unfolding m t(1) [symmetric] .
  have q: "res = obtener_estadisticas fl (fst s') \<and>
      ((\<forall>i<length llamadas. llamadas ! i) \<longrightarrow> int (length llamadas) = max 0 num_pasos)"
    if "mostrar_progreso \<or> mostrar_cada \<noteq> 0"
  proof -
    from that t(6) have "err = None" by blast
    with res t(5) show ?thesis by simp
  qed
  show ?thesis
  proof (intro conjI impI)
    show "int (length llamadas) \<le> max 0 num_pasos" by (rule t(3))
    show "\<forall>i<length llamadas.
       llamadas ! i = fst (realizar_paso g 1000 ((paso_1000 g ^^ i) s))" by (rule t(2))
    show "s' = (paso_1000 g ^^ length llamadas) s" by (rule t(1))
    show "\<forall>i<length llamadas. \<not> llamadas ! i \<longrightarrow> Suc i = length llamadas" by (rule t(4))
    show "pasos_realizados (fst s') =
      pasos_realizados (fst s) + int (length (filter id llamadas))" by (rule p)
  next
    assume h: "mostrar_progreso \<or> mostrar_cada \<noteq> 0"
    from q [OF h] show "res = obtener_estadisticas fl (fst s')" by simp
  next
    assume h: "mostrar_progreso \<or> mostrar_cada \<noteq> 0"
      and all: "\<forall>i<length llamadas. llamadas ! i"
    from q [OF h] all show "int (length llamadas) = max 0 num_pasos" by simp
  qed
qed

text \<open>
Claim C5. \<^verbatim>\<open>simular\<close> is to call \<^verbatim>\<open>realizar_paso\<close> at most \<^verbatim>\<open>num_pasos\<close> times, stop at the first failure and return the snapshot of the steps completed, as its docstring also says (\<^verbatim>\<open>Returns: dict\<close>). The code does not return at the following input. On a region of width 2 and height 1 with start \<open>(0, 0)\<close>, with every draw to the right, \<^verbatim>\<open>simular(3, mostrar_progreso=False, mostrar_cada=0)\<close> raises \<^verbatim>\<open>ZeroDivisionError\<close> at \<^verbatim>\<open>(paso + 1) % mostrar_cada\<close> after the first successful step: one call was made, one step was taken, no call failed, and no snapshot is returned.
\<close>

theorem simular_mostrar_cada_cero:
  "simular fl (\<lambda>i. 3) 3 False 0 (RandomWalk (Entorno 2 1 (Some (0, 0))), 0) =
   (Inl ZeroDivisionError, [True],
    \<lparr>entorno = Entorno 2 1 (Some (0, 0)), posicion_actual = (1, 0),
     camino = [(0, 0), (1, 0)], pasos_realizados = 1, intentos_bloqueados = 0\<rparr>,
    1)"
  by (simp add: realizar_paso_def realizar_paso_bucle.simps simular_def simular_bucle.simps
      obtener_direccion_aleatoria_def DIRECCIONES_def es_posicion_valida_def RandomWalk_def
      Entorno_def Let_def)

text \<open>
The same happens on every region and for every positive \<^verbatim>\<open>num_pasos\<close> as soon as the first step succeeds.
\<close>

lemma simular_mostrar_cada_cero_general:
  assumes "0 < num_pasos" and "fst (realizar_paso g 1000 s)"
  shows "simular fl g num_pasos False 0 s =
     (Inl ZeroDivisionError, [True], snd (realizar_paso g 1000 s))"
proof -
  obtain rw k where s: "s = (rw, k)" by (cases s)
  obtain rw' k' where r: "snd (realizar_paso g 1000 (rw, k)) = (rw', k')"
    by (cases "snd (realizar_paso g 1000 (rw, k))")
  have "simular_bucle g num_pasos False 0 0 ([], rw, k) =
      (Some ZeroDivisionError, [True], rw', k')"
    using assms s r by (subst simular_bucle.simps) (simp add: Let_def)
  with s r show ?thesis by (simp add: simular_def)
qed




text \<open>
Every snapshot that \<^verbatim>\<open>obtener_estadisticas\<close> returns is the dictionary of the engine with some float as its Euclidean distance.
\<close>

lemma obtener_estadisticas_diccionario:
  "obtener_estadisticas fl rw = Inr est \<Longrightarrow> \<exists>d. est = diccionario rw d"
  by (auto simp add: obtener_estadisticas_def split: sum.splits)

end
